theory Spec2Isabelle
  imports Main "HOL-Library.Sublist"
begin

section \<open>Python values used by the NapiProjekt provider\<close>

text \<open>
  The provider is Python. Its integers are unbounded (\<open>int\<close>), its exceptions are
  values of the type \<open>error\<close>, and a call that may raise returns \<open>error + 'a\<close>
  with \<open>Inl\<close> for the exception.

  A hash is a Python \<open>str\<close>; it is modelled as a \<open>string\<close> with one \<open>char\<close> for
  each code point, so the model covers the hashes whose code points lie below 256
  (a NapiProjekt hash is the hexadecimal digest of an MD5 sum, which is ASCII).
\<close>

datatype error =
    IndexError
  | ValueError
  | KeyError
  | AttributeError
  | HTTPError
  | ConnectionError
  | FfmpegError

type_synonym bytes = "char list"

text \<open>\<open>xs[i]\<close>: a negative index counts from the end, an index out of range raises.\<close>

definition py_getitem :: "'a list \<Rightarrow> int \<Rightarrow> error + 'a" where
  "py_getitem xs i =
     (if 0 \<le> i \<and> i < int (length xs) then Inr (xs ! nat i)
      else if i < 0 \<and> - int (length xs) \<le> i then Inr (xs ! nat (int (length xs) + i))
      else Inl IndexError)"

text \<open>\<open>xs[lo:hi]\<close>: both bounds are clamped to the sequence, and nothing is raised.\<close>

definition slice_bound :: "int \<Rightarrow> int \<Rightarrow> nat" where
  "slice_bound n i = nat (if i < 0 then max 0 (n + i) else min n i)"

definition py_slice :: "'a list \<Rightarrow> int \<Rightarrow> int \<Rightarrow> 'a list" where
  "py_slice xs lo hi =
     (let n = int (length xs); l = slice_bound n lo; h = slice_bound n hi
      in take (h - l) (drop l xs))"

subsection \<open>\<open>int(s, 16)\<close>\<close>

text \<open>
  The value of a character as a digit (CPython's table of digit values): the decimal
  digits, then the letters of either case from ten on, and 37 for every other character.
\<close>

definition digit_value :: "char \<Rightarrow> nat" where
  "digit_value c =
     (let n = (of_char c :: nat)
      in if 48 \<le> n \<and> n \<le> 57 then n - 48
         else if 97 \<le> n \<and> n \<le> 122 then n - 87
         else if 65 \<le> n \<and> n \<le> 90 then n - 55
         else 37)"

text \<open>
  The characters \<open>int\<close> skips around a number: tab, line feed, vertical tab, form feed,
  carriage return and space, and of the code points from 128 to 255 the two that Unicode
  classifies as white space (next line, no-break space).
\<close>

definition py_isspace :: "char \<Rightarrow> bool" where
  "py_isspace c = ((of_char c :: nat) \<in> {9, 10, 11, 12, 13, 32, 133, 160})"

text \<open>
  The digits of the number: the longest run of hexadecimal digits and underscores; two
  underscores in a row, or an underscore at the end of the run, are refused. The result
  is the value read and the text after the run.
\<close>

fun scan_digits :: "char \<Rightarrow> int \<Rightarrow> string \<Rightarrow> (int \<times> string) option" where
  "scan_digits prev acc [] = (if prev = CHR ''_'' then None else Some (acc, []))"
| "scan_digits prev acc (c # cs) =
     (if c = CHR ''_'' then (if prev = CHR ''_'' then None else scan_digits c acc cs)
      else if digit_value c < 16 then scan_digits c (acc * 16 + int (digit_value c)) cs
      else if prev = CHR ''_'' then None
      else Some (acc, c # cs))"

definition skip_sign :: "string \<Rightarrow> int \<times> string" where
  "skip_sign s =
     (case s of
        [] \<Rightarrow> (1, s)
      | c # r \<Rightarrow> if c = CHR ''+'' then (1, r) else if c = CHR ''-'' then (- 1, r) else (1, s))"

definition skip_prefix :: "string \<Rightarrow> string" where
  "skip_prefix s =
     (case s of
        c # x # r \<Rightarrow>
          if c = CHR ''0'' \<and> (x = CHR ''x'' \<or> x = CHR ''X'')
          then (case r of [] \<Rightarrow> r | u # r' \<Rightarrow> if u = CHR ''_'' then r' else r)
          else s
      | _ \<Rightarrow> s)"

definition py_int16 :: "string \<Rightarrow> error + int" where
  "py_int16 s =
     (let (sign, s2) = skip_sign (dropWhile py_isspace s);
          s3 = skip_prefix s2
      in if s3 \<noteq> [] \<and> hd s3 = CHR ''_'' then Inl ValueError
         else (case scan_digits (CHR 0x00) 0 s3 of
                 None \<Rightarrow> Inl ValueError
               | Some (v, rest) \<Rightarrow>
                   if length rest = length s3 then Inl ValueError
                   else if dropWhile py_isspace rest \<noteq> [] then Inl ValueError
                   else Inr (sign * v)))"

subsection \<open>\<open>"%x" % n\<close>\<close>

definition hex_char :: "nat \<Rightarrow> char" where
  "hex_char d = ''0123456789abcdef'' ! d"

fun hex_of_nat :: "nat \<Rightarrow> string" where
  "hex_of_nat n =
     (if n < 16 then [hex_char n] else hex_of_nat (n div 16) @ [hex_char (n mod 16)])"

declare hex_of_nat.simps [simp del]

definition py_format_x :: "int \<Rightarrow> string" where
  "py_format_x n = (if n < 0 then CHR ''-'' # hex_of_nat (nat (- n)) else hex_of_nat (nat n))"

section \<open>The hash deriver\<close>

definition idx :: "int list" where "idx = [0xE, 0x3, 0x6, 0x8, 0x2]"
definition mul :: "int list" where "mul = [2, 2, 5, 4, 3]"
definition add :: "int list" where "add = [0, 0xD, 0x10, 0xB, 0x5]"

text \<open>
  One turn of the loop of \<open>get_subhash\<close>, for the loop counter \<open>i\<close>: the character
  it appends to \<open>b\<close>, or the exception it raises. The counter runs over
  \<open>range(len(idx))\<close> and the three tables have the same length, so the reads of the
  tables are within range; the reads of the hash are not checked by the code and may
  raise.
\<close>

definition subhash_step :: "string \<Rightarrow> nat \<Rightarrow> error + string" where
  "subhash_step hash i =
     (let a = add ! i; m = mul ! i; j = idx ! i
      in case py_getitem hash j of
           Inl e \<Rightarrow> Inl e
         | Inr c \<Rightarrow>
            (case py_int16 [c] of
               Inl e \<Rightarrow> Inl e
             | Inr d \<Rightarrow>
                (let t = a + d
                 in case py_int16 (py_slice hash t (t + 2)) of
                      Inl e \<Rightarrow> Inl e
                    | Inr v \<Rightarrow>
                       (case py_getitem (py_format_x (v * m)) (- 1) of
                          Inl e \<Rightarrow> Inl e
                        | Inr x \<Rightarrow> Inr [x]))))"

fun subhash_loop :: "string \<Rightarrow> nat list \<Rightarrow> string list \<Rightarrow> error + string list" where
  "subhash_loop hash [] b = Inr b"
| "subhash_loop hash (i # is) b =
     (case subhash_step hash i of
        Inl e \<Rightarrow> Inl e
      | Inr x \<Rightarrow> subhash_loop hash is (b @ [x]))"

definition get_subhash :: "string \<Rightarrow> error + string" where
  "get_subhash hash =
     (case subhash_loop hash [0 ..< length idx] [] of
        Inl e \<Rightarrow> Inl e
      | Inr b \<Rightarrow> Inr (concat b))"

subsection \<open>The derivation as the specification words it\<close>

text \<open>
  The specification gives the derivation by positions: the digit at a fixed position,
  an offset added to it, the two digits from there on, a product, and the last digit of
  the product written in lowercase hexadecimal. \<open>deriveSubHash\<close> follows these
  words; it is compared with \<open>get_subhash\<close>, which follows the code. \<open>well_formed\<close>
  is the precondition of the specification: every position read lies within the hash and
  holds a hexadecimal digit.
\<close>

definition valid_hex :: "char \<Rightarrow> bool" where
  "valid_hex c = (c \<in> set ''0123456789abcdefABCDEF'')"

definition hexval :: "char \<Rightarrow> nat" where
  "hexval c =
     (if c \<in> set ''0123456789'' then of_char c - 48
      else if c \<in> set ''abcdef'' then of_char c - 87
      else of_char c - 55)"

definition indices :: "nat list" where "indices = [14, 3, 6, 8, 2]"
definition multipliers :: "nat list" where "multipliers = [2, 2, 5, 4, 3]"
definition offsets :: "nat list" where "offsets = [0, 13, 16, 11, 5]"

definition step_ok :: "string \<Rightarrow> nat \<Rightarrow> bool" where
  "step_ok h i =
     (let p = indices ! i
      in p < length h \<and> valid_hex (h ! p) \<and>
         (let t = offsets ! i + hexval (h ! p)
          in t + 1 < length h \<and> valid_hex (h ! t) \<and> valid_hex (h ! (t + 1))))"

definition well_formed :: "string \<Rightarrow> bool" where
  "well_formed h = list_all (step_ok h) [0 ..< 5]"

definition derive_step :: "string \<Rightarrow> nat \<Rightarrow> char" where
  "derive_step h i =
     (let p = indices ! i; m = multipliers ! i; a = offsets ! i;
          digitVal = hexval (h ! p);
          t = a + digitVal;
          v = 16 * hexval (h ! t) + hexval (h ! (t + 1))
      in last (hex_of_nat (v * m)))"

definition deriveSubHash :: "string \<Rightarrow> string" where
  "deriveSubHash h = map (derive_step h) [0 ..< 5]"

section \<open>The subtitle record\<close>

text \<open>
  \<open>NapiProjektSubtitle\<close>: the language given to the base class, the hash, and the
  stored content (\<open>_content\<close> in the code, read through the property \<open>content\<close>).
  The language is a value of a library outside the repository, so its type is a
  parameter. A video is known here by its mapping from the name of a hashing scheme to the
  hash.
\<close>

record 'l subtitle =
  language :: 'l
  hash :: string
  content :: "bytes option"

record video =
  hashes :: "string \<rightharpoonup> string"

definition get_matches :: "'l subtitle \<Rightarrow> video \<Rightarrow> string set" where
  "get_matches self v =
     (let matches = {}
      in if ''napiprojekt'' \<in> dom (hashes v) \<and> hashes v ''napiprojekt'' = Some (hash self)
         then insert ''hash'' matches
         else matches)"

subsection \<open>The collaborators outside the repository\<close>

text \<open>
  The provider calls four things that are not its own code; they are parameters of the
  model, and each may raise:
  \<^item> \<open>alpha2\<close>: the two-letter code of a language (\<open>language.alpha2\<close>);
  \<^item> \<open>http_get\<close>: \<open>session.get\<close>. The network is the one effect the model threads as
    state: the state is the list of the requests sent so far, and the answer to a request
    may depend on all of them;
  \<^item> \<open>from_bytes_best\<close>: \<open>from_bytes(content).best()\<close>, the text of the best guess of
    the encoding, or nothing when there is no guess;
  \<^item> \<open>ffmpeg_convert\<close>: writing the bytes to a temporary file, running the converter on
    it and reading the converted file back as text.

  A text (\<open>str\<close>) in this part is represented by its UTF-8 bytes: the two patterns of the
  normalisation name ASCII characters only and \<open>.\<close> excludes the line feed only, so they
  match on the bytes where they match on the code points, and \<open>encode("utf-8")\<close> is the
  identity on the representation.
\<close>

type_synonym str = string

record request =
  url :: string
  params :: "(string \<times> string) list"
  user_agent_header :: string
  timeout :: nat

record response =
  status_code :: int
  r_content :: bytes

record 'l externals =
  alpha2 :: "'l \<Rightarrow> error + string"
  http_get :: "request list \<Rightarrow> request \<Rightarrow> error + response"
  from_bytes_best :: "bytes \<Rightarrow> error + str option"
  ffmpeg_convert :: "bytes \<Rightarrow> error + str"

definition encode_utf8 :: "str \<Rightarrow> bytes" where
  "encode_utf8 t = t"

text \<open>\<open>str(x)\<close> of the best guess: \<open>str(None)\<close> is the text \<open>None\<close>.\<close>

definition py_str :: "str option \<Rightarrow> str" where
  "py_str m = (case m of None \<Rightarrow> ''None'' | Some t \<Rightarrow> t)"

subsection \<open>The two substitutions\<close>

text \<open>
  \<^verbatim>\<open>re.sub(r"^\/(.*)", r"<i>\1<\/i>", content_str)\<close>. No flag is given, so the caret
  matches at the start of the text only and the dot matches every character but the line
  feed: there is a match exactly when the text starts with a slash, the group is the rest
  of the first line, and no second match is possible. In the replacement, backslash 1 is
  the group, and backslash slash is an escape the template does not know and that is not a
  letter: it is left as it stands, a backslash and a slash.
\<close>

definition sub_italics :: "str \<Rightarrow> str" where
  "sub_italics content_str =
     (case content_str of
        [] \<Rightarrow> content_str
      | c # rest \<Rightarrow>
          if c = CHR ''/''
          then ''<i>'' @ takeWhile (\<lambda>x. x \<noteq> CHR 0x0A) rest @ ''<'' @ [CHR 0x5C] @ ''/i>''
                 @ dropWhile (\<lambda>x. x \<noteq> CHR 0x0A) rest
          else content_str)"

text \<open>
  \<^verbatim>\<open>re.sub(r"\\r", r"", content_str)\<close>: every match of a backslash followed by the
  letter r, found from left to right without overlap, is deleted.
\<close>

fun sub_backslash_r :: "str \<Rightarrow> str" where
  "sub_backslash_r (c # d # rest) =
     (if c = CHR 0x5C \<and> d = CHR ''r'' then sub_backslash_r rest
      else c # sub_backslash_r (d # rest))"
| "sub_backslash_r content_str = content_str"

subsection \<open>The setter of the content\<close>

text \<open>
  The body of the setter after the test for \<open>None\<close>: the bytes it stores in
  \<open>_content\<close>, or the exception of a collaborator.
\<close>

definition payload_to_content :: "'l externals \<Rightarrow> bytes \<Rightarrow> error + bytes" where
  "payload_to_content env raw =
     (case from_bytes_best env raw of
        Inl e \<Rightarrow> Inl e
      | Inr best \<Rightarrow>
         (let c = encode_utf8 (py_str best)
          in case ffmpeg_convert env c of
               Inl e \<Rightarrow> Inl e
             | Inr content_str \<Rightarrow>
                 Inr (encode_utf8 (sub_backslash_r (sub_italics content_str)))))"

definition content_setter ::
  "'l externals \<Rightarrow> 'l subtitle \<Rightarrow> bytes option \<Rightarrow> error + 'l subtitle" where
  "content_setter env self c =
     (case c of
        None \<Rightarrow> Inr self
      | Some raw \<Rightarrow>
         (case payload_to_content env raw of
            Inl e \<Rightarrow> Inl e
          | Inr b \<Rightarrow> Inr (self\<lparr>content := Some b\<rparr>)))"

section \<open>The provider\<close>

text \<open>
  The provider holds the session, which is \<open>None\<close> until \<open>initialize\<close>. Of the session
  the model keeps the one header the provider sets. \<open>user_agent\<close> is an attribute of the
  base class, outside the repository, and so a field here.
\<close>

record http_session =
  headers_user_agent :: string

record provider =
  user_agent :: string
  session :: "http_session option"

definition server_url :: string where
  "server_url = ''http://napiprojekt.pl/unit_napisy/dl.php''"

definition initialize :: "provider \<Rightarrow> provider" where
  "initialize self = self\<lparr>session := Some \<lparr>headers_user_agent = user_agent self\<rparr>\<rparr>"

text \<open>\<open>str.upper\<close> on a language code, whose letters are ASCII.\<close>

definition upper_char :: "char \<Rightarrow> char" where
  "upper_char c =
     (let n = (of_char c :: nat) in if 97 \<le> n \<and> n \<le> 122 then char_of (n - 32) else c)"

definition raise_for_status :: "response \<Rightarrow> error + unit" where
  "raise_for_status r =
     (if 400 \<le> status_code r \<and> status_code r < 600 then Inl HTTPError else Inr ())"

text \<open>
  \<open>query\<close> up to \<open>raise_for_status\<close>: the parameters (the language code first, then the
  subhash, in the order the dictionary is written), the request, and the check of the
  status. The result is the response together with the requests sent so far; a request
  that the network fails is counted as sent. The calls of the logger change nothing that
  the provider reads and are left out.
\<close>

definition query_fetch ::
  "'l externals \<Rightarrow> provider \<Rightarrow> 'l \<Rightarrow> string \<Rightarrow> request list
     \<Rightarrow> (error + response) \<times> request list" where
  "query_fetch env self lang h w =
     (case alpha2 env lang of
        Inl e \<Rightarrow> (Inl e, w)
      | Inr a \<Rightarrow>
         (case get_subhash h of
            Inl e \<Rightarrow> (Inl e, w)
          | Inr t \<Rightarrow>
             (let ps = [(''v'', ''dreambox''), (''kolejka'', ''false''), (''nick'', []),
                        (''pass'', []), (''napios'', ''Linux''), (''l'', map upper_char a),
                        (''f'', h), (''t'', t)]
              in case session self of
                   None \<Rightarrow> (Inl AttributeError, w)
                 | Some s \<Rightarrow>
                    (let req = \<lparr>url = server_url, params = ps,
                                user_agent_header = headers_user_agent s, timeout = 10\<rparr>
                     in case http_get env w req of
                          Inl e \<Rightarrow> (Inl e, w @ [req])
                        | Inr r \<Rightarrow>
                           (case raise_for_status r of
                              Inl e \<Rightarrow> (Inl e, w @ [req])
                            | Inr u \<Rightarrow> (Inr r, w @ [req]))))))"

text \<open>
  The rest of \<open>query\<close>: the test of the first four bytes, and on a hit the new record
  and the assignment to its content.
\<close>

definition query ::
  "'l externals \<Rightarrow> provider \<Rightarrow> 'l \<Rightarrow> string \<Rightarrow> request list
     \<Rightarrow> (error + 'l subtitle option) \<times> request list" where
  "query env self lang h w =
     (case query_fetch env self lang h w of
        (Inl e, w') \<Rightarrow> (Inl e, w')
      | (Inr r, w') \<Rightarrow>
          if py_slice (r_content r) 0 4 = ''NPc0'' then (Inr None, w')
          else (case content_setter env \<lparr>language = lang, hash = h, content = None\<rparr>
                       (Some (r_content r)) of
                  Inl e \<Rightarrow> (Inl e, w')
                | Inr sub \<Rightarrow> (Inr (Some sub), w')))"

text \<open>
  \<open>list_subtitles\<close>: the inner comprehension calls \<open>query\<close> for each language in turn
  (the hash of the video is looked up at each call, and a missing key raises); the first
  exception ends it. The outer comprehension keeps what is not \<open>None\<close>.
\<close>

fun query_each ::
  "'l externals \<Rightarrow> provider \<Rightarrow> video \<Rightarrow> 'l list \<Rightarrow> request list
     \<Rightarrow> (error + 'l subtitle option list) \<times> request list" where
  "query_each env self v [] w = (Inr [], w)"
| "query_each env self v (l # ls) w =
     (case hashes v ''napiprojekt'' of
        None \<Rightarrow> (Inl KeyError, w)
      | Some h \<Rightarrow>
         (case query env self l h w of
            (Inl e, w') \<Rightarrow> (Inl e, w')
          | (Inr s, w') \<Rightarrow>
             (case query_each env self v ls w' of
                (Inl e, w'') \<Rightarrow> (Inl e, w'')
              | (Inr ss, w'') \<Rightarrow> (Inr (s # ss), w''))))"

definition list_subtitles ::
  "'l externals \<Rightarrow> provider \<Rightarrow> video \<Rightarrow> 'l list \<Rightarrow> request list
     \<Rightarrow> (error + 'l subtitle list) \<times> request list" where
  "list_subtitles env self v languages w =
     (case query_each env self v languages w of
        (Inl e, w') \<Rightarrow> (Inl e, w')
      | (Inr ss, w') \<Rightarrow> (Inr (map the (filter (\<lambda>s. s \<noteq> None) ss)), w'))"

subsection \<open>Listing as the specification words it\<close>

text \<open>
  The specification: for each requested language, invoke \<open>query\<close> with the hash of the
  video, and collect only the results that are not absent, in the order of the languages.
\<close>

fun listSubtitles ::
  "'l externals \<Rightarrow> provider \<Rightarrow> string \<Rightarrow> 'l list \<Rightarrow> request list
     \<Rightarrow> (error + 'l subtitle list) \<times> request list" where
  "listSubtitles env self h [] w = (Inr [], w)"
| "listSubtitles env self h (l # ls) w =
     (case query env self l h w of
        (Inl e, w') \<Rightarrow> (Inl e, w')
      | (Inr None, w') \<Rightarrow> listSubtitles env self h ls w'
      | (Inr (Some s), w') \<Rightarrow>
         (case listSubtitles env self h ls w' of
            (Inl e, w'') \<Rightarrow> (Inl e, w'')
          | (Inr subs, w'') \<Rightarrow> (Inr (s # subs), w'')))"


subsection \<open>Sample collaborators\<close>

text \<open>
  A provider after \<open>initialize\<close>, and collaborators that always succeed: the server
  answers every request with the status 200 and a body chosen from the request, the
  encoding guess and the converter give their input back. \<open>sample_request\<close> is the
  request \<open>query\<close> sends for an uppercase language code, a hash and its subhash.
\<close>

definition sample_provider :: provider where
  "sample_provider = initialize \<lparr>user_agent = ''Subliminal'', session = None\<rparr>"

definition sample_externals :: "(request \<Rightarrow> bytes) \<Rightarrow> string externals" where
  "sample_externals body =
     \<lparr>alpha2 = (\<lambda>l. Inr l),
      http_get = (\<lambda>w req. Inr \<lparr>status_code = 200, r_content = body req\<rparr>),
      from_bytes_best = (\<lambda>b. Inr (Some b)),
      ffmpeg_convert = (\<lambda>b. Inr b)\<rparr>"

definition sample_request :: "string \<Rightarrow> string \<Rightarrow> string \<Rightarrow> request" where
  "sample_request l h t =
     \<lparr>url = server_url,
      params = [(''v'', ''dreambox''), (''kolejka'', ''false''), (''nick'', []),
                (''pass'', []), (''napios'', ''Linux''), (''l'', l), (''f'', h), (''t'', t)],
      user_agent_header = ''Subliminal'', timeout = 10\<rparr>"

text \<open>
  A video with a hash, a server that has nothing for English, and a converted text in
  which a line that begins with a slash is the third line.
\<close>

definition sample_video :: video where
  "sample_video = \<lparr>hashes = [''napiprojekt'' \<mapsto> ''0123456789abcdef0123456789abcdef'']\<rparr>"

definition absent_for_english :: "request \<Rightarrow> bytes" where
  "absent_for_english req =
     (if (''l'', ''EN'') \<in> set (params req) then ''NPc0'' else ''{0}{25}napisy'')"

definition srt_text :: str where
  "srt_text = ''1'' @ [CHR 0x0A] @ ''00:00:01,000 --> 00:00:02,000'' @ [CHR 0x0A] @ ''/hello''
                @ [CHR 0x0A]"

text \<open>
  The same collaborators with a converter that fails on every input, as the converter
  does on a payload it cannot read.
\<close>

definition failing_converter :: "(request \<Rightarrow> bytes) \<Rightarrow> string externals" where
  "failing_converter body = (sample_externals body)\<lparr>ffmpeg_convert := (\<lambda>b. Inl FfmpegError)\<rparr>"

section \<open>Properties of the hash deriver\<close>

lemma valid_hex_facts:
  assumes "valid_hex c"
  shows "digit_value c = hexval c \<and> hexval c < 16 \<and> \<not> py_isspace c \<and>
    c \<noteq> CHR ''+'' \<and> c \<noteq> CHR ''-'' \<and> c \<noteq> CHR ''_'' \<and> c \<noteq> CHR ''x'' \<and> c \<noteq> CHR ''X''"
proof -
  have "\<forall>c \<in> set ''0123456789abcdefABCDEF''. digit_value c = hexval c \<and> hexval c < 16 \<and>
    \<not> py_isspace c \<and> c \<noteq> CHR ''+'' \<and> c \<noteq> CHR ''-'' \<and> c \<noteq> CHR ''_'' \<and>
    c \<noteq> CHR ''x'' \<and> c \<noteq> CHR ''X''"
    by code_simp
  then show ?thesis using assms unfolding valid_hex_def by blast
qed

lemma py_int16_digit:
  assumes "valid_hex c"
  shows "py_int16 [c] = Inr (int (hexval c))"
  using valid_hex_facts [OF assms]
  by (simp add: py_int16_def skip_sign_def skip_prefix_def)

lemma py_int16_two_digits:
  assumes "valid_hex c" "valid_hex d"
  shows "py_int16 [c, d] = Inr (int (16 * hexval c + hexval d))"
  using valid_hex_facts [OF assms(1)] valid_hex_facts [OF assms(2)]
  by (simp add: py_int16_def skip_sign_def skip_prefix_def)

lemma py_slice_two:
  assumes "t + 1 < length h"
  shows "py_slice h (int t) (int t + 2) = [h ! t, h ! (t + 1)]"
proof -
  have "take 2 (drop t h) = [h ! t, h ! (t + 1)]"
    using assms by (simp add: take_Suc_conv_app_nth numeral_2_eq_2 hd_drop_conv_nth take_Suc)
  moreover have "slice_bound (int (length h)) (int t) = t"
    and "slice_bound (int (length h)) (int t + 2) = t + 2"
    using assms by (simp_all add: slice_bound_def)
  ultimately show ?thesis by (simp add: py_slice_def)
qed

lemma hex_of_nat_not_Nil: "hex_of_nat n \<noteq> []"
  by (subst hex_of_nat.simps) simp

lemma last_hex_of_nat: "last (hex_of_nat n) = hex_char (n mod 16)"
  by (subst hex_of_nat.simps) simp

lemma py_getitem_last:
  assumes "xs \<noteq> []"
  shows "py_getitem xs (- 1) = Inr (last xs)"
  using assms by (cases xs rule: rev_cases) (simp_all add: py_getitem_def nat_add_distrib)

lemma format_last:
  "py_getitem (py_format_x (int n)) (- 1) = Inr (last (hex_of_nat n))"
  by (simp add: py_format_x_def py_getitem_last hex_of_nat_not_Nil)

lemma tables:
  assumes "i < 5"
  shows "idx ! i = int (indices ! i)" "mul ! i = int (multipliers ! i)"
    "add ! i = int (offsets ! i)"
proof -
  from assms have "i = 0 \<or> i = 1 \<or> i = 2 \<or> i = 3 \<or> i = 4" by arith
  then show "idx ! i = int (indices ! i)" "mul ! i = int (multipliers ! i)"
    "add ! i = int (offsets ! i)"
    by (auto simp: idx_def indices_def mul_def multipliers_def add_def offsets_def)
qed

lemma subhash_step_ok:
  assumes "i < 5" "step_ok h i"
  shows "subhash_step h i = Inr [derive_step h i]"
proof -
  define p where "p = indices ! i"
  define t where "t = offsets ! i + hexval (h ! p)"
  define v where "v = 16 * hexval (h ! t) + hexval (h ! (t + 1))"
  from assms(2) have p: "p < length h" and hp: "valid_hex (h ! p)"
    and t: "t + 1 < length h" and ht: "valid_hex (h ! t)" "valid_hex (h ! (t + 1))"
    by (simp_all add: step_ok_def Let_def p_def t_def)
  have 1: "py_getitem h (int p) = Inr (h ! p)"
    using p by (simp add: py_getitem_def)
  have 2: "py_int16 [h ! p] = Inr (int (hexval (h ! p)))"
    by (rule py_int16_digit [OF hp])
  have 3: "py_slice h (int t) (int t + 2) = [h ! t, h ! (t + 1)]"
    by (rule py_slice_two [OF t])
  have 4: "py_int16 [h ! t, h ! (t + 1)] = Inr (int v)"
    unfolding v_def by (rule py_int16_two_digits [OF ht])
  have 5: "py_getitem (py_format_x (int (v * multipliers ! i))) (- 1)
             = Inr (last (hex_of_nat (v * multipliers ! i)))"
    by (rule format_last)
  have tt: "int (offsets ! i) + int (hexval (h ! p)) = int t"
    by (simp add: t_def)
  have 6: "int v * int (multipliers ! i) = int (v * multipliers ! i)"
    by simp
  have "subhash_step h i = Inr [last (hex_of_nat (v * multipliers ! i))]"
    unfolding subhash_step_def tables [OF assms(1)] Let_def p_def [symmetric]
    by (simp only: 1 2 tt 3 4 6 5 sum.case)
  moreover have "derive_step h i = last (hex_of_nat (v * multipliers ! i))"
    by (simp add: derive_step_def Let_def p_def t_def v_def)
  ultimately show ?thesis by simp
qed

lemma subhash_loop_ok:
  assumes "\<forall>i \<in> set js. i < 5 \<and> step_ok h i"
  shows "subhash_loop h js b = Inr (b @ map (\<lambda>i. [derive_step h i]) js)"
  using assms
proof (induction js arbitrary: b)
  case Nil
  then show ?case by simp
next
  case (Cons j js)
  then show ?case by (simp add: subhash_step_ok)
qed

lemma get_subhash_refines:
  assumes "well_formed h"
  shows "get_subhash h = Inr (deriveSubHash h)"
proof -
  have "\<forall>i \<in> set [0 ..< 5]. i < 5 \<and> step_ok h i"
    using assms by (simp add: well_formed_def list_all_iff)
  then have "subhash_loop h [0 ..< 5] [] = Inr ([] @ map (\<lambda>i. [derive_step h i]) [0 ..< 5])"
    by (rule subhash_loop_ok)
  moreover have "length idx = 5" by (simp add: idx_def)
  moreover have "concat (map (\<lambda>i. [derive_step h i]) js) = map (derive_step h) js" for js
    by (induction js) simp_all
  ultimately show ?thesis
    by (simp add: get_subhash_def deriveSubHash_def)
qed


lemma hex_char_lower: "hex_char (n mod 16) \<in> set ''0123456789abcdef''"
proof -
  have "\<forall>d \<in> set [0 ..< 16]. hex_char d \<in> set ''0123456789abcdef''"
    by code_simp
  then show ?thesis by simp
qed

lemma derive_step_lower: "derive_step h i \<in> set ''0123456789abcdef''"
  by (simp only: derive_step_def Let_def last_hex_of_nat hex_char_lower)

text \<open>
  Claim C1. For every hash that satisfies the precondition, \<open>get_subhash\<close> returns what
  the five steps of the specification give: for each step, with the positions 14, 3, 6, 8,
  2, the multipliers 2, 2, 5, 4, 3 and the offsets 0, 13, 16, 11, 5, the digit at the
  position plus the offset is \<open>t\<close>, the two digits at \<open>t\<close> and \<open>t + 1\<close> are read as
  a number, the number is multiplied, and the last character of the product in lowercase
  hexadecimal is kept; the five characters are concatenated in order.
\<close>

theorem get_subhash_five_steps:
  assumes "well_formed h"
  shows "get_subhash h = Inr (deriveSubHash h)"
  using assms by (rule get_subhash_refines)

theorem get_subhash_five_steps_witness:
  "well_formed ''0123456789abcdef0123456789abcdef'' \<and>
   get_subhash ''0123456789abcdef0123456789abcdef'' = Inr ''e2308''"
proof -
  have wf: "well_formed ''0123456789abcdef0123456789abcdef''"
    by code_simp
  have "deriveSubHash ''0123456789abcdef0123456789abcdef'' = ''e2308''"
    by code_simp
  with wf get_subhash_five_steps [OF wf] show ?thesis by simp
qed

text \<open>
  Claim C6. On every hash that satisfies the precondition, \<open>get_subhash\<close> raises nothing
  and returns a string of five characters, each a lowercase hexadecimal digit.
\<close>

theorem get_subhash_total:
  assumes "well_formed h"
  shows "\<exists>s. get_subhash h = Inr s \<and> length s = 5 \<and> set s \<subseteq> set ''0123456789abcdef''"
proof -
  have "length (deriveSubHash h) = 5"
    by (simp add: deriveSubHash_def)
  moreover have "set (deriveSubHash h) \<subseteq> set ''0123456789abcdef''"
    unfolding deriveSubHash_def using derive_step_lower by (auto simp del: set_simps)
  ultimately show ?thesis
    using get_subhash_refines [OF assms] by blast
qed

theorem get_subhash_total_witness:
  "well_formed ''a1b2c3d4e5f6a1b2a1b2c3d4e5f6a1b2'' \<and>
   (\<exists>s. get_subhash ''a1b2c3d4e5f6a1b2a1b2c3d4e5f6a1b2'' = Inr s \<and> length s = 5)"
proof -
  have wf: "well_formed ''a1b2c3d4e5f6a1b2a1b2c3d4e5f6a1b2''"
    by code_simp
  from get_subhash_total [OF wf] wf show ?thesis by blast
qed

text \<open>
  Claim C3, as stated: on the hash of sixteen characters \<open>0123456789abcdef\<close> the
  derivation succeeds with a string of five characters. It does not: the call raises
  \<open>ValueError\<close>.
\<close>

theorem get_subhash_fixture_raises:
  "get_subhash ''0123456789abcdef'' = Inl ValueError"
  by code_simp

text \<open>
  Claim C3, amended. The hash \<open>0123456789abcdef\<close> does not satisfy the precondition:
  the first step gives \<open>e\<close>, the second reads the digit 3 at position 3 and adds 13, the
  slice from 16 to 18 of a hash of length 16 is empty, and \<open>int\<close> of the empty string
  raises \<open>ValueError\<close>. The same sixteen digits written twice satisfy the precondition,
  and the derivation yields \<open>e2308\<close> on them.
\<close>

theorem get_subhash_fixture:
  "\<not> well_formed ''0123456789abcdef'' \<and>
   subhash_step ''0123456789abcdef'' 0 = Inr ''e'' \<and>
   py_slice ''0123456789abcdef'' 16 18 = [] \<and>
   subhash_step ''0123456789abcdef'' 1 = Inl ValueError \<and>
   get_subhash ''0123456789abcdef'' = Inl ValueError \<and>
   well_formed ''0123456789abcdef0123456789abcdef'' \<and>
   get_subhash ''0123456789abcdef0123456789abcdef'' = Inr ''e2308''"
proof -
  have "\<not> well_formed ''0123456789abcdef''" by code_simp
  moreover have "subhash_step ''0123456789abcdef'' 0 = Inr ''e''" by code_simp
  moreover have "py_slice ''0123456789abcdef'' 16 18 = []" by code_simp
  moreover have "subhash_step ''0123456789abcdef'' 1 = Inl ValueError" by code_simp
  moreover have "get_subhash ''0123456789abcdef'' = Inl ValueError" by code_simp
  moreover have "well_formed ''0123456789abcdef0123456789abcdef''" by code_simp
  moreover have "get_subhash ''0123456789abcdef0123456789abcdef'' = Inr ''e2308''"
    by code_simp
  ultimately show ?thesis by simp
qed

section \<open>Properties of the provider\<close>

lemma sentinel_prefix: "py_slice b 0 4 = ''NPc0'' \<longleftrightarrow> prefix ''NPc0'' b"
proof -
  have "py_slice b 0 4 = take 4 b"
    by (simp add: py_slice_def slice_bound_def min_def)
  moreover have "take 4 b = ''NPc0'' \<longleftrightarrow> prefix ''NPc0'' b"
  proof
    assume "take 4 b = ''NPc0''"
    then show "prefix ''NPc0'' b" by (metis take_is_prefix)
  next
    assume "prefix ''NPc0'' b"
    then obtain zs where "b = ''NPc0'' @ zs" by (auto simp: prefix_def)
    then show "take 4 b = ''NPc0''" by simp
  qed
  ultimately show ?thesis by simp
qed

lemma query_miss:
  assumes "query_fetch env self lang h w = (Inr r, w')" "prefix ''NPc0'' (r_content r)"
  shows "query env self lang h w = (Inr None, w')"
  using assms by (simp add: query_def sentinel_prefix)

lemma query_hit:
  assumes "query_fetch env self lang h w = (Inr r, w')" "\<not> prefix ''NPc0'' (r_content r)"
  shows "query env self lang h w =
     (case payload_to_content env (r_content r) of
        Inl e \<Rightarrow> (Inl e, w')
      | Inr c \<Rightarrow> (Inr (Some \<lparr>language = lang, hash = h, content = Some c\<rparr>), w'))"
  using assms by (simp add: query_def sentinel_prefix content_setter_def split: sum.splits)

lemma query_fetch_log:
  assumes "query_fetch env self lang h w = (Inr r, w')"
  shows "\<exists>req. w' = w @ [req] \<and> (''f'', h) \<in> set (params req)"
  using assms unfolding query_fetch_def Let_def
  by (auto split: sum.splits option.splits)

lemma query_result:
  assumes "query env self lang h w = (Inr res, w')"
  shows "(\<exists>req. w' = w @ [req] \<and> (''f'', h) \<in> set (params req)) \<and>
         (\<forall>sub. res = Some sub \<longrightarrow> language sub = lang \<and> hash sub = h \<and> content sub \<noteq> None)"
proof (cases "query_fetch env self lang h w")
  case (Pair x w1)
  show ?thesis
  proof (cases x)
    case (Inl e)
    with Pair assms show ?thesis by (simp add: query_def)
  next
    case (Inr r)
    with Pair have f: "query_fetch env self lang h w = (Inr r, w1)" by simp
    show ?thesis
    proof (cases "prefix ''NPc0'' (r_content r)")
      case True
      from query_miss [OF f True] assms query_fetch_log [OF f] show ?thesis by auto
    next
      case False
      from query_hit [OF f False] assms query_fetch_log [OF f] show ?thesis
        by (auto split: sum.splits)
    qed
  qed
qed

lemma get_subhash_sample: "get_subhash ''0123456789abcdef0123456789abcdef'' = Inr ''e2308''"
  by code_simp

lemma query_fetch_sample:
  "query_fetch (sample_externals body) sample_provider l ''0123456789abcdef0123456789abcdef'' w
     = (Inr \<lparr>status_code = 200, r_content = body (sample_request (map upper_char l) ''0123456789abcdef0123456789abcdef'' ''e2308'')\<rparr>,
        w @ [sample_request (map upper_char l) ''0123456789abcdef0123456789abcdef'' ''e2308''])"
  by (simp add: query_fetch_def sample_externals_def sample_provider_def initialize_def
      get_subhash_sample sample_request_def raise_for_status_def Let_def)

lemma payload_sample: "payload_to_content (sample_externals body) raw = Inr (sub_backslash_r (sub_italics raw))"
  by (simp add: payload_to_content_def sample_externals_def py_str_def encode_utf8_def)

text \<open>
  Claim C2. When the request has been answered with a status that is not an error and
  the body starts with the four bytes \<open>NPc0\<close>, \<open>query\<close> returns \<open>None\<close>: no record
  and no exception, whatever bytes follow the four.
\<close>

theorem query_sentinel_absent:
  assumes "query_fetch env self lang h w = (Inr r, w')"
    and "r_content r = ''NPc0'' @ rest"
  shows "query env self lang h w = (Inr None, w')"
proof -
  from assms(2) have "prefix ''NPc0'' (r_content r)" by simp
  with assms(1) show ?thesis by (rule query_miss)
qed

theorem query_sentinel_absent_witness:
  "query (sample_externals (\<lambda>req. ''NPc0 brak napisow'')) sample_provider ''pl''
      ''0123456789abcdef0123456789abcdef'' []
   = (Inr None, [sample_request ''PL'' ''0123456789abcdef0123456789abcdef'' ''e2308''])"
proof -
  have up: "upper_char CHR ''p'' = CHR ''P''" "upper_char CHR ''l'' = CHR ''L''"
    by code_simp+
  have b: "r_content \<lparr>status_code = 200, r_content = ''NPc0 brak napisow''\<rparr> = ''NPc0'' @ '' brak napisow''"
    by simp
  note f = query_fetch_sample [of "\<lambda>req. ''NPc0 brak napisow''" "''pl''" "[]"]
  from query_sentinel_absent [OF f b]
  show ?thesis by (simp add: up)
qed

lemma query_hit_explicit:
  assumes "query_fetch env self lang h w = (Inr r, w')"
    and "\<not> prefix ''NPc0'' (r_content r)"
  shows "query env self lang h w =
           (case from_bytes_best env (r_content r) of
              Inl e \<Rightarrow> (Inl e, w')
            | Inr best \<Rightarrow>
               (case ffmpeg_convert env (encode_utf8 (py_str best)) of
                  Inl e \<Rightarrow> (Inl e, w')
                | Inr content_str \<Rightarrow>
                   (Inr (Some \<lparr>language = lang, hash = h,
                                 content = Some (encode_utf8
                                   (sub_backslash_r (sub_italics content_str)))\<rparr>), w')))"
  using query_hit [OF assms]
  by (simp add: payload_to_content_def Let_def split: sum.splits)

lemma query_fetch_failing:
  "query_fetch (failing_converter body) sample_provider l ''0123456789abcdef0123456789abcdef'' w
     = (Inr \<lparr>status_code = 200, r_content = body (sample_request (map upper_char l) ''0123456789abcdef0123456789abcdef'' ''e2308'')\<rparr>,
        w @ [sample_request (map upper_char l) ''0123456789abcdef0123456789abcdef'' ''e2308''])"
  by (simp add: query_fetch_def failing_converter_def sample_externals_def sample_provider_def
      initialize_def get_subhash_sample sample_request_def raise_for_status_def Let_def)

lemma query_failing:
  assumes "\<not> prefix ''NPc0''
     (body (sample_request (map upper_char l) ''0123456789abcdef0123456789abcdef'' ''e2308''))"
  shows "query (failing_converter body) sample_provider l ''0123456789abcdef0123456789abcdef'' w
     = (Inl FfmpegError,
        w @ [sample_request (map upper_char l) ''0123456789abcdef0123456789abcdef'' ''e2308''])"
  using query_hit_explicit [OF query_fetch_failing, of body l w] assms
  by (simp add: failing_converter_def sample_externals_def)

text \<open>
  Claim C5, as stated: for every body that does not start with \<open>NPc0\<close>, \<open>query\<close>
  returns a record. It does not when the converter fails: the body below does not start
  with the sentinel, the request is answered with the status 200, and \<open>query\<close> raises
  the exception of the converter and returns no record.
\<close>

theorem query_hit_raises:
  "\<not> prefix ''NPc0'' ''{0}{25}napisy'' \<and>
   query (failing_converter (\<lambda>req. ''{0}{25}napisy'')) sample_provider ''pl''
      ''0123456789abcdef0123456789abcdef'' []
   = (Inl FfmpegError, [sample_request ''PL'' ''0123456789abcdef0123456789abcdef'' ''e2308''])"
proof -
  have up: "map upper_char ''pl'' = ''PL''" by code_simp
  have n: "\<not> prefix ''NPc0'' ''{0}{25}napisy''" by simp
  from query_failing [of "\<lambda>req. ''{0}{25}napisy''" "''pl''" "[]", OF n] n
  show ?thesis by (simp only: up append_Nil simp_thms)
qed

text \<open>
  Claim C5, amended. When the request has been answered and the body does not start with
  \<open>NPc0\<close>, \<open>query\<close> never returns \<open>None\<close>, and its outcome is that of the assignment
  of the body to the content of a new record: the exception of the encoding guess or of
  the converter if one of them raises, with no record returned; and otherwise the record
  with the language and the hash of the call, whose content is the text the converter
  gave for the guessed text, after the two substitutions. So a record that \<open>query\<close>
  returns has the language and the hash of the call and a content derived in this way;
  none is returned without it.
\<close>

theorem query_hit_record:
  assumes "query_fetch env self lang h w = (Inr r, w')"
    and "\<not> prefix ''NPc0'' (r_content r)"
  shows "query env self lang h w =
           (case from_bytes_best env (r_content r) of
              Inl e \<Rightarrow> (Inl e, w')
            | Inr best \<Rightarrow>
               (case ffmpeg_convert env (encode_utf8 (py_str best)) of
                  Inl e \<Rightarrow> (Inl e, w')
                | Inr content_str \<Rightarrow>
                   (Inr (Some \<lparr>language = lang, hash = h,
                                 content = Some (encode_utf8
                                   (sub_backslash_r (sub_italics content_str)))\<rparr>), w'))) \<and>
         fst (query env self lang h w) \<noteq> Inr None \<and>
         (\<forall>sub. fst (query env self lang h w) = Inr (Some sub) \<longrightarrow>
            language sub = lang \<and> hash sub = h \<and>
            (\<exists>best content_str.
               from_bytes_best env (r_content r) = Inr best \<and>
               ffmpeg_convert env (encode_utf8 (py_str best)) = Inr content_str \<and>
               content sub = Some (encode_utf8 (sub_backslash_r (sub_italics content_str)))))"
  using query_hit_explicit [OF assms] by (auto split: sum.splits)

theorem query_hit_record_witness:
  "query (sample_externals (\<lambda>req. ''{0}{25}napisy'')) sample_provider ''pl''
      ''0123456789abcdef0123456789abcdef'' []
   = (Inr (Some \<lparr>language = ''pl'', hash = ''0123456789abcdef0123456789abcdef'',
                  content = Some ''{0}{25}napisy''\<rparr>),
      [sample_request ''PL'' ''0123456789abcdef0123456789abcdef'' ''e2308''])"
proof -
  have up: "upper_char CHR ''p'' = CHR ''P''" "upper_char CHR ''l'' = CHR ''L''"
    by code_simp+
  have b: "\<not> prefix ''NPc0'' (r_content \<lparr>status_code = 200, r_content = ''{0}{25}napisy''\<rparr>)"
    by simp
  have c: "sub_backslash_r (sub_italics ''{0}{25}napisy'') = ''{0}{25}napisy''"
    by code_simp
  note f = query_fetch_sample [of "\<lambda>req. ''{0}{25}napisy''" "''pl''" "[]"]
  from query_hit_record [OF f b]
  show ?thesis by (simp add: up sample_externals_def py_str_def encode_utf8_def c)
qed

text \<open>
  Claim C10, as stated: for every body of fewer than four bytes, the empty one included,
  \<open>query\<close> builds and returns a record. It does not when the converter fails on the
  short body: for the empty body below, \<open>query\<close> raises the exception of the converter
  and returns no record.
\<close>

theorem query_empty_body_raises:
  "length ([] :: bytes) < 4 \<and>
   query (failing_converter (\<lambda>req. [])) sample_provider ''pl''
      ''0123456789abcdef0123456789abcdef'' []
   = (Inl FfmpegError, [sample_request ''PL'' ''0123456789abcdef0123456789abcdef'' ''e2308''])"
proof -
  have up: "map upper_char ''pl'' = ''PL''" by code_simp
  have n: "\<not> prefix ''NPc0'' []" by simp
  from query_failing [of "\<lambda>req. []" "''pl''" "[]", OF n]
  show ?thesis by (simp only: up append_Nil list.size simp_thms zero_less_numeral)
qed

text \<open>
  Claim C10, amended. A body of fewer than four bytes, the empty one included, is not
  equal to the sentinel after slicing, so \<open>query\<close> never returns \<open>None\<close> for it: it
  builds the record and assigns the short body to its content, which runs the encoding
  guess, the converter and the two substitutions on it. The record is returned when the
  guess and the converter succeed, and the exception of the one that fails is raised
  otherwise.
\<close>

theorem query_short_body_hit:
  assumes "query_fetch env self lang h w = (Inr r, w')"
    and "length (r_content r) < 4"
  shows "py_slice (r_content r) 0 4 \<noteq> ''NPc0'' \<and>
         fst (query env self lang h w) \<noteq> Inr None \<and>
         query env self lang h w =
           (case from_bytes_best env (r_content r) of
              Inl e \<Rightarrow> (Inl e, w')
            | Inr best \<Rightarrow>
               (case ffmpeg_convert env (encode_utf8 (py_str best)) of
                  Inl e \<Rightarrow> (Inl e, w')
                | Inr content_str \<Rightarrow>
                   (Inr (Some \<lparr>language = lang, hash = h,
                                 content = Some (encode_utf8
                                   (sub_backslash_r (sub_italics content_str)))\<rparr>), w')))"
proof -
  from assms(2) have n: "\<not> prefix ''NPc0'' (r_content r)"
    by (auto simp: prefix_def)
  from query_hit_explicit [OF assms(1) n] n show ?thesis
    by (auto simp: sentinel_prefix split: sum.splits)
qed

theorem query_short_body_hit_witness:
  "query (sample_externals (\<lambda>req. ''NPc'')) sample_provider ''pl''
      ''0123456789abcdef0123456789abcdef'' []
   = (Inr (Some \<lparr>language = ''pl'', hash = ''0123456789abcdef0123456789abcdef'',
                  content = Some ''NPc''\<rparr>),
      [sample_request ''PL'' ''0123456789abcdef0123456789abcdef'' ''e2308''])"
proof -
  have up: "upper_char CHR ''p'' = CHR ''P''" "upper_char CHR ''l'' = CHR ''L''"
    by code_simp+
  have b: "length (r_content \<lparr>status_code = 200, r_content = ''NPc''\<rparr>) < 4"
    by simp
  have c: "sub_backslash_r (sub_italics ''NPc'') = ''NPc''"
    by code_simp
  note f = query_fetch_sample [of "\<lambda>req. ''NPc''" "''pl''" "[]"]
  from query_short_body_hit [OF f b]
  show ?thesis by (simp add: up sample_externals_def py_str_def encode_utf8_def c)
qed


lemma list_subtitles_refines:
  assumes "hashes v ''napiprojekt'' = Some h"
  shows "list_subtitles env self v langs w = listSubtitles env self h langs w"
proof (induction langs arbitrary: w)
  case Nil
  show ?case by (simp add: list_subtitles_def)
next
  case (Cons l ls)
  have ih: "\<And>w'. (case query_each env self v ls w' of
                (Inl e, w'') \<Rightarrow> (Inl e, w'')
              | (Inr ss, w'') \<Rightarrow> (Inr (map the (filter (\<lambda>s. s \<noteq> None) ss)), w''))
            = listSubtitles env self h ls w'"
    using Cons.IH by (simp add: list_subtitles_def)
  show ?case
  proof (cases "query env self l h w")
    case (Pair x w1)
    show ?thesis
    proof (cases x)
      case (Inl e)
      with Pair assms show ?thesis by (simp add: list_subtitles_def)
    next
      case (Inr res)
      show ?thesis
      proof (cases res)
        case None
        with Inr Pair assms ih [of w1] show ?thesis
          by (simp add: list_subtitles_def split: prod.splits sum.splits)
      next
        case (Some sub)
        with Inr Pair assms ih [of w1] show ?thesis
          by (auto simp add: list_subtitles_def split: prod.splits sum.splits)
      qed
    qed
  qed
qed

lemma listSubtitles_result:
  assumes "listSubtitles env self h langs w = (Inr subs, w')"
  shows "subseq (map language subs) langs \<and>
         (\<forall>s \<in> set subs. hash s = h \<and> content s \<noteq> None) \<and>
         (\<exists>reqs. w' = w @ reqs \<and> length reqs = length langs \<and>
            (\<forall>q \<in> set reqs. (''f'', h) \<in> set (params q)))"
  using assms
proof (induction langs arbitrary: w subs)
  case Nil
  then show ?case by simp
next
  case (Cons l ls)
  obtain x w1 where q: "query env self l h w = (x, w1)" by (cases "query env self l h w")
  with Cons.prems obtain res where x: "x = Inr res" by (cases x) simp_all
  from query_result [OF q [unfolded x]]
  obtain req where w1: "w1 = w @ [req]" and f: "(''f'', h) \<in> set (params req)"
    and r: "\<forall>sub. res = Some sub \<longrightarrow> language sub = l \<and> hash sub = h \<and> content sub \<noteq> None"
    by blast
  show ?case
  proof (cases res)
    case None
    with Cons.prems q x have "listSubtitles env self h ls w1 = (Inr subs, w')" by simp
    from Cons.IH [OF this] obtain reqs where
      a: "subseq (map language subs) ls" "\<forall>s \<in> set subs. hash s = h \<and> content s \<noteq> None"
      and b: "w' = w1 @ reqs" "length reqs = length ls" "\<forall>q \<in> set reqs. (''f'', h) \<in> set (params q)"
      by blast
    from b w1 f have "w' = w @ (req # reqs) \<and> length (req # reqs) = length (l # ls) \<and>
        (\<forall>q \<in> set (req # reqs). (''f'', h) \<in> set (params q))" by simp
    with a show ?thesis by (auto intro: list_emb_Cons)
  next
    case (Some sub)
    with Cons.prems q x obtain subs' where
      rec: "listSubtitles env self h ls w1 = (Inr subs', w')" and subs: "subs = sub # subs'"
      by (auto split: prod.splits sum.splits)
    from Cons.IH [OF rec] obtain reqs where
      a: "subseq (map language subs') ls" "\<forall>s \<in> set subs'. hash s = h \<and> content s \<noteq> None"
      and b: "w' = w1 @ reqs" "length reqs = length ls" "\<forall>q \<in> set reqs. (''f'', h) \<in> set (params q)"
      by blast
    from b w1 f have "w' = w @ (req # reqs) \<and> length (req # reqs) = length (l # ls) \<and>
        (\<forall>q \<in> set (req # reqs). (''f'', h) \<in> set (params q))" by simp
    moreover from r Some have "language sub = l" "hash sub = h" "content sub \<noteq> None" by simp_all
    ultimately show ?thesis using a subs by auto
  qed
qed

text \<open>
  Claim C7. For a video that has a \<open>napiprojekt\<close> hash, \<open>list_subtitles\<close> does what
  the specification words: it calls \<open>query\<close> with that hash for each language in turn
  and keeps the results that are not \<open>None\<close>. When it returns, the languages of the
  records are a subsequence of the requested languages (the order is kept), every record
  carries the hash of the video and a content, and the requests sent are one for each
  language, each with the hash as its parameter \<open>f\<close>.
\<close>

theorem list_subtitles_in_order:
  assumes "hashes v ''napiprojekt'' = Some h"
  shows "list_subtitles env self v langs w = listSubtitles env self h langs w \<and>
         (\<forall>subs w'. list_subtitles env self v langs w = (Inr subs, w') \<longrightarrow>
            subseq (map language subs) langs \<and>
            (\<forall>s \<in> set subs. hash s = h \<and> content s \<noteq> None) \<and>
            (\<exists>reqs. w' = w @ reqs \<and> length reqs = length langs \<and>
               (\<forall>q \<in> set reqs. (''f'', h) \<in> set (params q))))"
  using list_subtitles_refines [OF assms] listSubtitles_result by metis


lemma query_sample:
  "query (sample_externals body) sample_provider l ''0123456789abcdef0123456789abcdef'' w =
     (let req = sample_request (map upper_char l) ''0123456789abcdef0123456789abcdef'' ''e2308''
      in if prefix ''NPc0'' (body req) then (Inr None, w @ [req])
         else (Inr (Some \<lparr>language = l, hash = ''0123456789abcdef0123456789abcdef'',
                            content = Some (sub_backslash_r (sub_italics (body req)))\<rparr>),
               w @ [req]))"
proof (cases "prefix ''NPc0''
    (body (sample_request (map upper_char l) ''0123456789abcdef0123456789abcdef'' ''e2308''))")
  case True
  then show ?thesis
    using query_miss [OF query_fetch_sample, of body l w] by (simp add: Let_def)
next
  case False
  then show ?thesis
    using query_hit [OF query_fetch_sample, of body l w] by (simp add: Let_def payload_sample)
qed

theorem list_subtitles_in_order_witness:
  "hashes sample_video ''napiprojekt'' = Some ''0123456789abcdef0123456789abcdef'' \<and>
   list_subtitles (sample_externals absent_for_english) sample_provider sample_video
       [''en'', ''pl'', ''fr''] []
     = (Inr [\<lparr>language = ''pl'', hash = ''0123456789abcdef0123456789abcdef'',
               content = Some ''{0}{25}napisy''\<rparr>,
             \<lparr>language = ''fr'', hash = ''0123456789abcdef0123456789abcdef'',
               content = Some ''{0}{25}napisy''\<rparr>],
        [sample_request ''EN'' ''0123456789abcdef0123456789abcdef'' ''e2308'',
         sample_request ''PL'' ''0123456789abcdef0123456789abcdef'' ''e2308'',
         sample_request ''FR'' ''0123456789abcdef0123456789abcdef'' ''e2308'']) \<and>
   subseq [''pl'', ''fr''] [''en'', ''pl'', ''fr'']"
proof -
  have v: "hashes sample_video ''napiprojekt'' = Some ''0123456789abcdef0123456789abcdef''"
    by (simp add: sample_video_def)
  have up: "map upper_char ''en'' = ''EN''" "map upper_char ''pl'' = ''PL''"
    "map upper_char ''fr'' = ''FR''"
    by code_simp+
  have c: "sub_backslash_r (sub_italics ''{0}{25}napisy'') = ''{0}{25}napisy''"
    by code_simp
  have b: "absent_for_english (sample_request ''EN'' h t) = ''NPc0''"
    "absent_for_english (sample_request ''PL'' h t) = ''{0}{25}napisy''"
    "absent_for_english (sample_request ''FR'' h t) = ''{0}{25}napisy''" for h t
    by (simp_all add: absent_for_english_def sample_request_def)
  have e: "listSubtitles (sample_externals absent_for_english) sample_provider
          ''0123456789abcdef0123456789abcdef'' [''en'', ''pl'', ''fr''] []
     = (Inr [\<lparr>language = ''pl'', hash = ''0123456789abcdef0123456789abcdef'',
               content = Some ''{0}{25}napisy''\<rparr>,
             \<lparr>language = ''fr'', hash = ''0123456789abcdef0123456789abcdef'',
               content = Some ''{0}{25}napisy''\<rparr>],
        [sample_request ''EN'' ''0123456789abcdef0123456789abcdef'' ''e2308'',
         sample_request ''PL'' ''0123456789abcdef0123456789abcdef'' ''e2308'',
         sample_request ''FR'' ''0123456789abcdef0123456789abcdef'' ''e2308''])"
    by (simp only: listSubtitles.simps query_sample up Let_def b c) simp
  have eq: "list_subtitles (sample_externals absent_for_english) sample_provider sample_video
          [''en'', ''pl'', ''fr''] []
        = listSubtitles (sample_externals absent_for_english) sample_provider
          ''0123456789abcdef0123456789abcdef'' [''en'', ''pl'', ''fr''] []"
    using list_subtitles_in_order [OF v] by blast
  have ls: "list_subtitles (sample_externals absent_for_english) sample_provider sample_video
          [''en'', ''pl'', ''fr''] []
     = (Inr [\<lparr>language = ''pl'', hash = ''0123456789abcdef0123456789abcdef'',
               content = Some ''{0}{25}napisy''\<rparr>,
             \<lparr>language = ''fr'', hash = ''0123456789abcdef0123456789abcdef'',
               content = Some ''{0}{25}napisy''\<rparr>],
        [sample_request ''EN'' ''0123456789abcdef0123456789abcdef'' ''e2308'',
         sample_request ''PL'' ''0123456789abcdef0123456789abcdef'' ''e2308'',
         sample_request ''FR'' ''0123456789abcdef0123456789abcdef'' ''e2308''])"
    by (simp only: eq e)
  have "subseq (map language
            [\<lparr>language = ''pl'', hash = ''0123456789abcdef0123456789abcdef'',
               content = Some ''{0}{25}napisy''\<rparr>,
             \<lparr>language = ''fr'', hash = ''0123456789abcdef0123456789abcdef'',
               content = Some ''{0}{25}napisy''\<rparr>]) [''en'', ''pl'', ''fr'']"
    by (rule list_subtitles_in_order [OF v, THEN conjunct2, rule_format, OF ls, THEN conjunct1])
  then have "subseq [''pl'', ''fr''] [''en'', ''pl'', ''fr'']"
    by (simp only: list.map subtitle.select_convs)
  then show ?thesis by (simp only: ls v simp_thms)
qed

text \<open>
  Claim C8. \<open>get_matches\<close> returns the set with the single tag \<open>hash\<close> exactly when
  the video has a \<open>napiprojekt\<close> hash equal to the hash of the record, and the empty set
  in every other case.
\<close>

theorem get_matches_hash:
  "(get_matches self v = {''hash''} \<longleftrightarrow> hashes v ''napiprojekt'' = Some (hash self)) \<and>
   (hashes v ''napiprojekt'' \<noteq> Some (hash self) \<longrightarrow> get_matches self v = {})"
  by (auto simp: get_matches_def Let_def)

theorem get_matches_hash_witness:
  "get_matches \<lparr>language = ''pl'', hash = ''0123456789abcdef0123456789abcdef'', content = None\<rparr>
     sample_video = {''hash''} \<and>
   hashes sample_video ''napiprojekt'' \<noteq> Some ''a1b2c3d4e5f6a1b2a1b2c3d4e5f6a1b2'' \<and>
   get_matches \<lparr>language = ''pl'', hash = ''a1b2c3d4e5f6a1b2a1b2c3d4e5f6a1b2'', content = None\<rparr>
     sample_video = {} \<and>
   get_matches \<lparr>language = ''pl'', hash = ''0123456789abcdef0123456789abcdef'', content = None\<rparr>
     \<lparr>hashes = Map.empty\<rparr> = {}"
proof -
  have v: "hashes sample_video ''napiprojekt'' = Some ''0123456789abcdef0123456789abcdef''"
    by (simp add: sample_video_def)
  have n: "hashes sample_video ''napiprojekt'' \<noteq> Some ''a1b2c3d4e5f6a1b2a1b2c3d4e5f6a1b2''"
    by (simp add: sample_video_def)
  show ?thesis
    using get_matches_hash [of "\<lparr>language = ''pl'', hash = ''0123456789abcdef0123456789abcdef'',
        content = None\<rparr>" sample_video]
      get_matches_hash [of "\<lparr>language = ''pl'', hash = ''a1b2c3d4e5f6a1b2a1b2c3d4e5f6a1b2'',
        content = None\<rparr>" sample_video]
      get_matches_hash [of "\<lparr>language = ''pl'', hash = ''0123456789abcdef0123456789abcdef'',
        content = None\<rparr>" "\<lparr>hashes = Map.empty\<rparr>"]
      v n by simp
qed

text \<open>
  Claim C9. Assigning \<open>None\<close> to the content of a record in any state leaves the whole
  record as it was, its content included; and whatever is assigned, the record that
  results has the language and the hash it had before.
\<close>

theorem content_setter_frame:
  "content_setter env self None = Inr self \<and>
   (\<forall>c self'. content_setter env self c = Inr self' \<longrightarrow>
      language self' = language self \<and> hash self' = hash self)"
  by (auto simp: content_setter_def split: option.splits sum.splits)

theorem content_setter_frame_witness:
  "content_setter (sample_externals (\<lambda>req. [])) 
      \<lparr>language = ''pl'', hash = ''0123456789abcdef0123456789abcdef'', content = Some ''napisy''\<rparr>
      None
     = Inr \<lparr>language = ''pl'', hash = ''0123456789abcdef0123456789abcdef'', content = Some ''napisy''\<rparr> \<and>
   content_setter (sample_externals (\<lambda>req. []))
      \<lparr>language = ''pl'', hash = ''0123456789abcdef0123456789abcdef'', content = None\<rparr>
      (Some ''{0}{25}napisy'')
     = Inr \<lparr>language = ''pl'', hash = ''0123456789abcdef0123456789abcdef'',
            content = Some ''{0}{25}napisy''\<rparr>"
proof -
  have c: "sub_backslash_r (sub_italics ''{0}{25}napisy'') = ''{0}{25}napisy''"
    by code_simp
  have "content_setter (sample_externals (\<lambda>req. []))
      \<lparr>language = ''pl'', hash = ''0123456789abcdef0123456789abcdef'', content = None\<rparr>
      (Some ''{0}{25}napisy'')
     = Inr \<lparr>language = ''pl'', hash = ''0123456789abcdef0123456789abcdef'',
            content = Some ''{0}{25}napisy''\<rparr>"
    by (simp add: content_setter_def payload_sample c)
  with content_setter_frame [of "sample_externals (\<lambda>req. [])"
      "\<lparr>language = ''pl'', hash = ''0123456789abcdef0123456789abcdef'', content = Some ''napisy''\<rparr>"]
  show ?thesis by simp
qed

text \<open>
  Claim C4, on the code. The claim says that a line \<open>/hello\<close> becomes
  \<^verbatim>\<open><i>hello</i>\<close> and that this happens to any line that begins with a slash. The first
  substitution turns the text \<open>/hello\<close> into \<^verbatim>\<open><i>hello<\/i>\<close>, with a backslash before
  the slash of the closing tag, and the second substitution keeps it so; and in a
  converted text such as \<open>srt_text\<close>, where the line \<open>/hello\<close> is the third line,
  nothing is wrapped.
\<close>

theorem sub_italics_hello:
  "sub_italics ''/hello'' = ''<i>hello<'' @ [CHR 0x5C] @ ''/i>'' \<and>
   sub_backslash_r (sub_italics ''/hello'') \<noteq> ''<i>hello</i>'' \<and>
   payload_to_content (sample_externals (\<lambda>req. [])) ''/hello''
     = Inr (''<i>hello<'' @ [CHR 0x5C] @ ''/i>'') \<and>
   sub_backslash_r (sub_italics srt_text) = srt_text"
proof -
  have 1: "sub_italics ''/hello'' = ''<i>hello<'' @ [CHR 0x5C] @ ''/i>''"
    by code_simp
  have 2: "sub_backslash_r (sub_italics ''/hello'') = ''<i>hello<'' @ [CHR 0x5C] @ ''/i>''"
    by code_simp
  have 3: "sub_backslash_r (sub_italics srt_text) = srt_text"
    by code_simp
  from 1 2 3 show ?thesis by (simp add: payload_sample)
qed


end
